theory Spec2Isabelle
  imports Main "HOL-Library.AList" "HOL-Library.Sublist" "HOL-Library.Char_ord"
    "HOL-Library.List_Lexorder" "HOL-Library.Multiset"
begin

section \<open>Python values, documents and errors\<close>

text \<open>
  The class \<open>Survey\<close> of \<open>openfisca_survey_manager/surveys.py\<close> stores whatever Python
  value it is handed. The values that reach it from a parsed JSON document or from keyword
  arguments are modelled by \<open>pyval\<close>: \<open>None\<close>, booleans, integers, strings and dictionaries
  with string keys. A dictionary is an association list: the list order stands for the
  iteration order of the dictionary, and no key occurs twice in a Python dictionary.
  JSON arrays and floating-point numbers are not used by any method of the class and are
  left out.
\<close>

datatype pyval =
    PNone
  | PBool bool
  | PInt int
  | PStr string
  | PDict "(string \<times> pyval) list"

type_synonym pydict = "(string \<times> pyval) list"

text \<open>
  The exceptions the methods raise. \<open>AssertionError\<close> comes from the \<open>assert\<close> statements,
  \<open>KeyError\<close> from a failed lookup in a dictionary or in the HDF store, \<open>TypeError\<close> and
  \<open>AttributeError\<close> from operations applied to a value of the wrong type, \<open>IOError\<close>
  from a store file that cannot be opened, and
  \<open>MissingVariables\<close> is the \<open>Exception\<close> raised by \<open>get_values\<close>, whose message is built
  from the set of missing variable names.
\<close>

datatype error =
    AssertionError
  | KeyError
  | TypeError
  | AttributeError
  | IOError
  | MissingVariables "string set"

text \<open>\<open>d.get(k)\<close>: the value stored under \<open>k\<close>, or \<open>None\<close>.\<close>

definition dict_get :: "pydict \<Rightarrow> string \<Rightarrow> pyval" where
  "dict_get d k = (case map_of d k of None \<Rightarrow> PNone | Some v \<Rightarrow> v)"

section \<open>The class Survey\<close>

text \<open>
  The instance attributes. The class-level defaults are \<open>None\<close> for \<open>hdf5_file_path\<close>,
  \<open>label\<close>, \<open>name\<close> and \<open>tables\<close>. The class attribute \<open>tables_index = dict()\<close> is not a
  field of the record: no method ever assigns \<open>self.tables_index\<close>, so it lives in the class
  object alone (see \<open>find_tables\<close> below).
\<close>

record survey =
  hdf5_file_path :: pyval
  label :: pyval
  name :: pyval
  tables :: pyval
  informations :: pydict

definition class_default :: pyval where
  "class_default = PNone"

text \<open>
  \<open>__init__(self, name = None, label = None, hdf5_file_path = None, **kwargs)\<close>.
  An attribute that is not assigned keeps the class-level default.
\<close>

definition Survey_init :: "pyval \<Rightarrow> pyval \<Rightarrow> pyval \<Rightarrow> pydict \<Rightarrow> error + survey" where
  "Survey_init nm lbl path kwargs =
     (if nm = PNone then Inl AssertionError
      else Inr \<lparr> hdf5_file_path = (if path \<noteq> PNone then path else class_default),
                 label = (if lbl \<noteq> PNone then lbl else class_default),
                 name = nm,
                 tables = PDict [],
                 informations = kwargs \<rparr>)"

text \<open>
  The names bound by the signature of \<open>__init__\<close>. A call \<open>cls(name = ..., label = ...,
  hdf5_file_path = ..., **d)\<close> raises \<open>TypeError\<close> (multiple values for a keyword argument)
  when \<open>d\<close> has one of them as a key, and also when \<open>d\<close> is not a mapping.
\<close>

definition init_parameters :: "string list" where
  "init_parameters = [''self'', ''name'', ''label'', ''hdf5_file_path'']"

definition create_from_json :: "pydict \<Rightarrow> error + survey" where
  "create_from_json survey_json =
     (case dict_get survey_json ''informations'' of
        PDict kwargs \<Rightarrow>
          (if set (map fst kwargs) \<inter> set init_parameters \<noteq> {} then Inl TypeError
           else (case Survey_init (dict_get survey_json ''name'')
                                  (dict_get survey_json ''label'')
                                  (dict_get survey_json ''hdf5_file_path'')
                                  kwargs of
                   Inl e \<Rightarrow> Inl e
                 | Inr self \<Rightarrow> Inr (self\<lparr>tables := dict_get survey_json ''tables''\<rparr>)))
      | _ \<Rightarrow> Inl TypeError)"


section \<open>Serialisation\<close>

text \<open>
  \<open>sorted(d.iteritems())\<close>: the items of a dictionary ordered by key. Tuples are compared
  component by component and no two items of a dictionary have the same key, so the values
  are never compared. Strings are compared lexicographically, character code by character
  code, which is the order of \<open>List_Lexorder\<close> over \<open>Char_ord\<close>.
\<close>

definition sorted_items :: "pydict \<Rightarrow> pydict" where
  "sorted_items d = sort_key fst d"

text \<open>
  \<open>to_json\<close> fills an \<open>OrderedDict\<close> key by key. \<open>self.tables.iteritems()\<close> raises
  \<open>AttributeError\<close> when \<open>self.tables\<close> is not a dictionary; \<open>self.informations\<close> is
  always one.
\<close>

definition to_json :: "survey \<Rightarrow> error + pydict" where
  "to_json self =
     (case tables self of
        PDict t \<Rightarrow>
          Inr [(''hdf5_file_path'', hdf5_file_path self),
               (''label'', label self),
               (''name'', name self),
               (''tables'', PDict (sorted_items t)),
               (''informations'', PDict (sorted_items (informations self)))]
      | _ \<Rightarrow> Inl AttributeError)"

section \<open>Registering tables\<close>

text \<open>
  \<open>self.tables[name][key] = val\<close> on a registry dictionary \<open>t\<close>: the entry of \<open>name\<close> is
  looked up and must itself support item assignment.
\<close>

definition table_setitem :: "pydict \<Rightarrow> string \<Rightarrow> string \<Rightarrow> pyval \<Rightarrow> error + pydict" where
  "table_setitem t nm key val =
     (case map_of t nm of
        None \<Rightarrow> Inl KeyError
      | Some (PDict a) \<Rightarrow> Inr (AList.update nm (PDict (AList.update key val a)) t)
      | Some _ \<Rightarrow> Inl TypeError)"

text \<open>\<open>for key, val in kwargs.iteritems(): self.tables[name][key] = val\<close>\<close>

fun insert_loop :: "pydict \<Rightarrow> string \<Rightarrow> pydict \<Rightarrow> error + pydict" where
  "insert_loop t nm [] = Inr t"
| "insert_loop t nm ((key, val) # kwargs) =
     (case table_setitem t nm key val of
        Inl e \<Rightarrow> Inl e
      | Inr t' \<Rightarrow> insert_loop t' nm kwargs)"

text \<open>
  \<open>insert_table(self, name = None, **kwargs)\<close>, for a table name that is a string. The test
  \<open>name not in self.tables\<close> is a key test on a dictionary, a substring test on a string,
  and raises \<open>TypeError\<close> on \<open>None\<close>, a boolean or an integer; a string supports neither
  item assignment nor indexing by a string.
\<close>

definition insert_table :: "survey \<Rightarrow> string \<Rightarrow> pydict \<Rightarrow> error + survey" where
  "insert_table self nm kwargs =
     (case tables self of
        PDict t \<Rightarrow>
          (let t1 = (if nm \<notin> set (map fst t) then AList.update nm (PDict []) t else t) in
           case insert_loop t1 nm kwargs of
             Inl e \<Rightarrow> Inl e
           | Inr t2 \<Rightarrow> Inr (self\<lparr>tables := PDict t2\<rparr>))
      | PStr r \<Rightarrow> (if sublist nm r \<and> kwargs = [] then Inr self else Inl TypeError)
      | _ \<Rightarrow> Inl TypeError)"

section \<open>The HDF store\<close>

text \<open>
  A table of the store is a pandas \<open>DataFrame\<close>: a sequence of labelled columns, where two
  columns may carry the same label. The column contents are of an arbitrary type \<open>'d\<close>.
  An opened store maps keys to tables. \<open>pandas.HDFStore\<close> itself is not part of the
  repository: the methods below take it as a parameter \<open>HDFStore\<close>, which maps the value of
  \<open>hdf5_file_path\<close> to the opened store or to the exception raised on opening.
\<close>

type_synonym 'd dataframe = "(string \<times> 'd) list"

type_synonym 'd hdfstore = "string \<rightharpoonup> 'd dataframe"

definition columns :: "'d dataframe \<Rightarrow> string list" where
  "columns df = map fst df"

text \<open>\<open>store[key]\<close>: \<open>KeyError\<close> when the key names no table of the store.\<close>

definition store_getitem :: "'d hdfstore \<Rightarrow> pyval \<Rightarrow> error + 'd dataframe" where
  "store_getitem store key =
     (case key of
        PStr k \<Rightarrow> (case store k of None \<Rightarrow> Inl KeyError | Some df \<Rightarrow> Inr df)
      | _ \<Rightarrow> Inl KeyError)"

text \<open>\<open>d[k]\<close> for a string \<open>k\<close>: only a dictionary can be indexed by a string.\<close>

definition getitem :: "pyval \<Rightarrow> string \<Rightarrow> error + pyval" where
  "getitem d k =
     (case d of
        PDict kv \<Rightarrow> (case map_of kv k of None \<Rightarrow> Inl KeyError | Some v \<Rightarrow> Inr v)
      | _ \<Rightarrow> Inl TypeError)"

section \<open>Column index and table discovery\<close>

definition get_columns ::
  "(pyval \<Rightarrow> error + 'd hdfstore) \<Rightarrow> survey \<Rightarrow> string option \<Rightarrow> error + string list" where
  "get_columns HDFStore self table =
     (case table of
        None \<Rightarrow> Inl AssertionError
      | Some t \<Rightarrow>
          (case HDFStore (hdf5_file_path self) of
             Inl e \<Rightarrow> Inl e
           | Inr store \<Rightarrow>
               (case store t of
                  None \<Rightarrow> Inl AssertionError
                | Some df \<Rightarrow> Inr (columns df))))"

text \<open>
  The class attribute \<open>tables_index = dict()\<close>: one dictionary, created when the class
  statement is executed. \<open>find_tables\<close> reads \<open>self.tables_index\<close>, which resolves to this
  dictionary for every instance, and stores into it in place. The dictionary is therefore
  state of the class: it is passed to \<open>find_tables\<close> and returned updated, also when the call
  ends in an exception.
\<close>

type_synonym tables_index = "string \<rightharpoonup> string list"

definition Survey_tables_index :: "tables_index \<Rightarrow> survey \<Rightarrow> tables_index" where
  "Survey_tables_index class_tables_index self = class_tables_index"

text \<open>
  The loop of \<open>find_tables\<close>. Besides the result it returns the index and the list of the
  tables for which \<open>get_columns\<close> has built a column list (its \<open>log.info\<close> line), in call
  order.
\<close>

fun find_tables_loop ::
  "(pyval \<Rightarrow> error + 'd hdfstore) \<Rightarrow> survey \<Rightarrow> string \<Rightarrow> string list \<Rightarrow>
   tables_index \<Rightarrow> string list \<Rightarrow> string list \<Rightarrow>
   (error + string list) \<times> tables_index \<times> string list" where
  "find_tables_loop HDFStore self variable [] index built container_tables =
     (Inr container_tables, index, built)"
| "find_tables_loop HDFStore self variable (table # rest) index built container_tables =
     (case index table of
        None \<Rightarrow>
          (case get_columns HDFStore self (Some table) of
             Inl e \<Rightarrow> (Inl e, index, built)
           | Inr cols \<Rightarrow>
               find_tables_loop HDFStore self variable rest (index(table \<mapsto> cols))
                 (built @ [table])
                 (if variable \<in> set cols then container_tables @ [table]
                  else container_tables))
      | Some cols \<Rightarrow>
          find_tables_loop HDFStore self variable rest index built
            (if variable \<in> set cols then container_tables @ [table] else container_tables))"

text \<open>
  \<open>for table in self.tables\<close>: the keys of a dictionary, the characters of a string,
  \<open>TypeError\<close> for a value that cannot be iterated.
\<close>

definition iter_tables :: "pyval \<Rightarrow> error + string list" where
  "iter_tables v =
     (case v of
        PDict kv \<Rightarrow> Inr (map fst kv)
      | PStr s \<Rightarrow> Inr (map (\<lambda>c. [c]) s)
      | _ \<Rightarrow> Inl TypeError)"

definition find_tables ::
  "(pyval \<Rightarrow> error + 'd hdfstore) \<Rightarrow> tables_index \<Rightarrow> survey \<Rightarrow> string option \<Rightarrow>
   string list option \<Rightarrow> (error + string list) \<times> tables_index \<times> string list" where
  "find_tables HDFStore class_tables_index self variable tbls =
     (case variable of
        None \<Rightarrow> (Inl AssertionError, class_tables_index, [])
      | Some v \<Rightarrow>
          (case (case tbls of None \<Rightarrow> iter_tables (tables self) | Some ts \<Rightarrow> Inr ts) of
             Inl e \<Rightarrow> (Inl e, class_tables_index, [])
           | Inr ts \<Rightarrow>
               find_tables_loop HDFStore self v ts
                 (Survey_tables_index class_tables_index self) [] []))"

section \<open>Value retrieval\<close>

text \<open>\<open>str.lower\<close> on ASCII strings.\<close>

definition lower_char :: "char \<Rightarrow> char" where
  "lower_char c =
     (case map_of (zip ''ABCDEFGHIJKLMNOPQRSTUVWXYZ'' ''abcdefghijklmnopqrstuvwxyz'') c of
        None \<Rightarrow> c
      | Some l \<Rightarrow> l)"

definition lower :: "string \<Rightarrow> string" where
  "lower s = map lower_char s"

definition is_digit :: "char \<Rightarrow> bool" where
  "is_digit c = (c \<in> set ''0123456789'')"

text \<open>
  \<open>ident_re.match(column_name)\<close> for \<open>ident_re = re.compile(u"(?i)ident\d{2,4}$")\<close>.
  \<open>match\<close> anchors the pattern at the start of the string. The five letters are compared
  without regard to case. \<open>\d{2,4}\<close> takes digits greedily, and \<open>$\<close> holds at the end of the
  string and just before a newline that ends the string; giving back a digit never helps,
  because \<open>$\<close> does not hold before a digit. So the name matches when the run of digits
  after the letters has length 2 to 4 and is followed by nothing or by one final newline.
\<close>

definition ident_re_match :: "string \<Rightarrow> bool" where
  "ident_re_match s =
     (5 \<le> length s \<and> map lower_char (take 5 s) = ''ident'' \<and>
      (let digits = takeWhile is_digit (drop 5 s);
           rest = dropWhile is_digit (drop 5 s)
       in 2 \<le> length digits \<and> length digits \<le> 4 \<and> (rest = [] \<or> rest = [CHR 0x0A])))"

text \<open>
  \<open>df.rename(columns = mapper, inplace = True)\<close>: every column label is replaced by its
  image; a label that is not a key of the mapper keeps its name.
\<close>

definition rename :: "(string \<Rightarrow> string) \<Rightarrow> 'd dataframe \<Rightarrow> 'd dataframe" where
  "rename f df = map (\<lambda>(c, d). (f c, d)) df"

text \<open>Lines 155 to 159 of \<open>get_values\<close>: the table is read from the opened store.\<close>

definition read_table :: "'d hdfstore \<Rightarrow> survey \<Rightarrow> string \<Rightarrow> error + 'd dataframe" where
  "read_table store self table =
     (case store_getitem store (PStr table) of
        Inr df \<Rightarrow> Inr df
      | Inl KeyError \<Rightarrow>
          (case getitem (tables self) table of
             Inl e \<Rightarrow> Inl e
           | Inr entry \<Rightarrow>
               (case getitem entry ''Rdata_table'' of
                  Inl e \<Rightarrow> Inl e
                | Inr key \<Rightarrow> store_getitem store key))
      | Inl e \<Rightarrow> Inl e)"

text \<open>Lines 161 to 163: the mapper sends every column name to its lowercase form.\<close>

definition lowercase_columns :: "bool \<Rightarrow> 'd dataframe \<Rightarrow> 'd dataframe" where
  "lowercase_columns lowercase df = (if lowercase then rename lower df else df)"

text \<open>
  Lines 165 to 170: the scan stops at the first column name that matches, and the mapper
  \<open>{column_name: "ident"}\<close> is applied to the whole frame.
\<close>

definition rename_ident_column :: "bool \<Rightarrow> 'd dataframe \<Rightarrow> 'd dataframe" where
  "rename_ident_column rename_ident df =
     (if rename_ident then
        (case find ident_re_match (columns df) of
           None \<Rightarrow> df
         | Some column_name \<Rightarrow> rename (\<lambda>c. if c = column_name then ''ident'' else c) df)
      else df)"

text \<open>\<open>df[variables]\<close>: for each requested label in turn, the columns that carry it.\<close>

definition select_columns :: "string list \<Rightarrow> 'd dataframe \<Rightarrow> 'd dataframe" where
  "select_columns vs df = concat (map (\<lambda>v. filter (\<lambda>(c, d). c = v) df) vs)"

text \<open>
  Lines 172 to 180. \<open>list(set(variables).intersection(df.columns))\<close> enumerates a set of
  strings in the order fixed by their hashes; the parameter \<open>hash_order\<close> stands for that
  enumeration of the requested names that are column names.
\<close>

definition select_variables ::
  "(string list \<Rightarrow> string list) \<Rightarrow> string list option \<Rightarrow> 'd dataframe \<Rightarrow>
   error + 'd dataframe" where
  "select_variables hash_order variables df =
     (case variables of
        None \<Rightarrow> Inr df
      | Some vs \<Rightarrow>
          (let diff = set vs - set (columns df) in
           if diff \<noteq> {} then Inl (MissingVariables diff)
           else Inr (select_columns
                       (hash_order (remdups (filter (\<lambda>v. v \<in> set (columns df)) vs))) df)))"

definition get_values ::
  "(pyval \<Rightarrow> error + 'd hdfstore) \<Rightarrow> (string list \<Rightarrow> string list) \<Rightarrow> survey \<Rightarrow>
   string list option \<Rightarrow> string \<Rightarrow> bool \<Rightarrow> bool \<Rightarrow> error + 'd dataframe" where
  "get_values HDFStore hash_order self variables table lowercase rename_ident =
     (case HDFStore (hdf5_file_path self) of
        Inl e \<Rightarrow> Inl e
      | Inr store \<Rightarrow>
          (case read_table store self table of
             Inl e \<Rightarrow> Inl e
           | Inr df \<Rightarrow>
               select_variables hash_order variables
                 (rename_ident_column rename_ident (lowercase_columns lowercase df))))"

section \<open>Example stores and catalogs\<close>

text \<open>
  Two store files, each with one table \<open>T\<close>: the table of \<open>a.h5\<close> has the single column
  \<open>x\<close>, the table of \<open>b.h5\<close> the single column \<open>y\<close>. Any other path cannot be opened.
\<close>

definition two_stores :: "pyval \<Rightarrow> error + unit hdfstore" where
  "two_stores path =
     (if path = PStr ''a.h5'' then Inr [''T'' \<mapsto> [(''x'', ())]]
      else if path = PStr ''b.h5'' then Inr [''T'' \<mapsto> [(''y'', ())]]
      else Inl IOError)"

text \<open>
  A store \<open>erfs.h5\<close> with three tables, each column holding two rows of integers, and a
  catalog over it that registers the table \<open>menage\<close> under the physical key \<open>men\<close> and a
  table \<open>foyer\<close> without physical key.
\<close>

definition erfs_store :: "int list hdfstore" where
  "erfs_store =
     [''men'' \<mapsto> [(''IDENT08'', [1, 2]), (''Salaire'', [1500, 2100])],
      ''ind'' \<mapsto> [(''IDENT08'', [1, 2]), (''ident08'', [3, 4])],
      ''T'' \<mapsto> [(''a'', [5, 6]), (''c'', [7, 8])]]"

definition erfs_files :: "pyval \<Rightarrow> error + int list hdfstore" where
  "erfs_files path = (if path = PStr ''erfs.h5'' then Inr erfs_store else Inl IOError)"

definition erfs :: survey where
  "erfs = \<lparr> hdf5_file_path = PStr ''erfs.h5'', label = PNone, name = PStr ''erfs'',
            tables = PDict [(''menage'', PDict [(''Rdata_table'', PStr ''men'')]),
                            (''foyer'', PDict [])],
            informations = [] \<rparr>"

text \<open>
  A document for the same store that has no key \<open>tables\<close>, and the catalog that
  \<open>create_from_json\<close> builds from it.
\<close>

definition erfs_document :: pydict where
  "erfs_document =
     [(''name'', PStr ''erfs''), (''hdf5_file_path'', PStr ''erfs.h5''),
      (''informations'', PDict [])]"

definition erfs_loaded :: survey where
  "erfs_loaded = \<lparr> hdf5_file_path = PStr ''erfs.h5'', label = PNone, name = PStr ''erfs'',
                   tables = PNone, informations = [] \<rparr>"

definition catalog_a :: survey where
  "catalog_a = \<lparr> hdf5_file_path = PStr ''a.h5'', label = PNone, name = PStr ''a'',
                 tables = PDict [], informations = [] \<rparr>"

definition catalog_b :: survey where
  "catalog_b = \<lparr> hdf5_file_path = PStr ''b.h5'', label = PNone, name = PStr ''b'',
                 tables = PDict [], informations = [] \<rparr>"

section \<open>The index after a lookup\<close>

text \<open>
  The index that a run of \<open>find_tables\<close> over the tables \<open>ts\<close> leaves behind when it starts
  from \<open>index\<close> and no \<open>get_columns\<close> fails: a listed table without entry receives the
  column names of its table in the store, every other entry is kept.
\<close>

definition extended :: "'d hdfstore \<Rightarrow> tables_index \<Rightarrow> string list \<Rightarrow> tables_index" where
  "extended store index ts =
     (\<lambda>t. if t \<in> set ts \<and> index t = None then map_option columns (store t) else index t)"

section \<open>Sorting the items of a dictionary\<close>

lemma map_of_insort_key_fst:
  "map_of (insort_key fst x ys) = map_of (x # ys)"
proof (induction ys)
  case Nil
  then show ?case by simp
next
  case (Cons y ys)
  show ?case
  proof (cases "fst x \<le> fst y")
    case True
    then show ?thesis by simp
  next
    case False
    then have "fst x \<noteq> fst y" by auto
    with False Cons show ?thesis
      by (cases x; cases y) (auto simp: fun_upd_twist)
  qed
qed

lemma map_of_sorted_items: "map_of (sorted_items d) = map_of d"
  unfolding sorted_items_def
proof (induction d)
  case Nil
  then show ?case by simp
next
  case (Cons x d)
  then show ?case by (cases x) (simp add: map_of_insort_key_fst)
qed

lemma keys_sorted_items: "set (map fst (sorted_items d)) = set (map fst d)"
  by (simp add: sorted_items_def)




lemma dict_get_simps:
  "dict_get [] k = PNone"
  "dict_get ((k', v) # d) k = (if k' = k then v else dict_get d k)"
  by (simp_all add: dict_get_def)

section \<open>Merging attributes into the registry\<close>



section \<open>Data frames and the example store\<close>

lemma columns_rename: "columns (rename f df) = map f (columns df)"
  by (induction df) (auto simp: columns_def rename_def)

lemma contents_rename: "map snd (rename f df) = map snd df"
  by (induction df) (auto simp: rename_def)

lemma rename_first_match_distinct:
  assumes "distinct xs"
  shows "(case find P xs of None \<Rightarrow> xs | Some c \<Rightarrow> map (\<lambda>x. if x = c then i else x) xs) =
         takeWhile (\<lambda>c. \<not> P c) xs @
           (case dropWhile (\<lambda>c. \<not> P c) xs of [] \<Rightarrow> [] | c # rest \<Rightarrow> i # rest)"
  using assms
proof (induction xs)
  case Nil
  then show ?case by simp
next
  case (Cons x xs)
  show ?case
  proof (cases "P x")
    case True
    have "map (\<lambda>y. if y = x then i else y) xs = xs"
      using Cons.prems by (intro map_idI) auto
    with True show ?thesis by simp
  next
    case False
    show ?thesis
    proof (cases "find P xs")
      case None
      with False Cons show ?thesis by simp
    next
      case (Some c)
      then have "c \<in> set xs" by (auto simp: find_Some_iff)
      with Cons.prems have "x \<noteq> c" by auto
      with False Some Cons show ?thesis by simp
    qed
  qed
qed

lemma set_select_columns:
  "set (select_columns vs df) = {c \<in> set df. fst c \<in> set vs}"
  by (auto simp: select_columns_def)

lemma columns_select_columns:
  "set (columns (select_columns vs df)) = set vs \<inter> set (columns df)"
  by (force simp: columns_def select_columns_def)

lemma mset_filter_disjoint:
  assumes "\<And>x. x \<in> set xs \<Longrightarrow> \<not> (P x \<and> Q x)"
  shows "mset (filter P xs) + mset (filter Q xs) = mset (filter (\<lambda>x. P x \<or> Q x) xs)"
  using assms by (induction xs) auto

lemma mset_select_columns:
  assumes "distinct vs"
  shows "mset (select_columns vs df) = mset (filter (\<lambda>c. fst c \<in> set vs) df)"
  using assms
proof (induction vs)
  case Nil
  then show ?case by (simp add: select_columns_def)
next
  case (Cons v vs)
  have head: "filter (\<lambda>(c, d). c = v) df = filter (\<lambda>c. fst c = v) df"
    by (rule filter_cong) auto
  have tail: "mset (select_columns vs df) = mset (filter (\<lambda>c. fst c \<in> set vs) df)"
    using Cons by simp
  have "mset (select_columns (v # vs) df) =
          mset (filter (\<lambda>c. fst c = v) df) + mset (select_columns vs df)"
    by (simp add: select_columns_def head)
  also have "\<dots> = mset (filter (\<lambda>c. fst c = v) df) + mset (filter (\<lambda>c. fst c \<in> set vs) df)"
    by (simp only: tail)
  also have "\<dots> = mset (filter (\<lambda>c. fst c = v \<or> fst c \<in> set vs) df)"
    using Cons.prems by (intro mset_filter_disjoint) auto
  also have "\<dots> = mset (filter (\<lambda>c. fst c \<in> set (v # vs)) df)"
    by simp
  finally show ?case .
qed

lemma get_values_unfold:
  assumes "HDFStore (hdf5_file_path s) = Inr store" and "read_table store s table = Inr df"
  shows "get_values HDFStore hash_order s variables table lowercase rename_ident =
           select_variables hash_order variables
             (rename_ident_column rename_ident (lowercase_columns lowercase df))"
  using assms by (simp add: get_values_def)

lemma read_table_erfs:
  "read_table erfs_store erfs ''T'' = Inr [(''a'', [5, 6]), (''c'', [7, 8])]"
  "read_table erfs_store erfs ''menage'' = Inr [(''IDENT08'', [1, 2]), (''Salaire'', [1500, 2100])]"
  "read_table erfs_store erfs ''ind'' = Inr [(''IDENT08'', [1, 2]), (''ident08'', [3, 4])]"
  by (simp_all add: read_table_def store_getitem_def getitem_def erfs_store_def erfs_def)

lemma lower_examples:
  "lower ''a'' = ''a''" "lower ''c'' = ''c''" "lower ''IDENT08'' = ''ident08''"
  "lower ''ident08'' = ''ident08''" "lower ''Salaire'' = ''salaire''"
  by (simp_all add: lower_def lower_char_def)

lemma ident_re_match_examples:
  "\<not> ident_re_match ''a''" "\<not> ident_re_match ''c''" "ident_re_match ''ident08''"
  "\<not> ident_re_match ''salaire''"
  by (simp_all add: ident_re_match_def lower_char_def is_digit_def)

section \<open>The names matched by ident_re\<close>

text \<open>
  \<open>ident_re\<close> matches exactly the names made of the letters of \<open>ident\<close> in either case,
  then 2 to 4 digits, then nothing or one final newline.
\<close>

lemma newline_not_digit: "\<not> is_digit (CHR 0x0A)"
  by (simp add: is_digit_def)

lemma ident_re_match_iff:
  "ident_re_match s \<longleftrightarrow>
     (\<exists>letters digits end.
        s = letters @ digits @ end \<and> map lower_char letters = ''ident'' \<and>
        (\<forall>d \<in> set digits. is_digit d) \<and> 2 \<le> length digits \<and> length digits \<le> 4 \<and>
        (end = [] \<or> end = [CHR 0x0A]))"
proof
  assume m: "ident_re_match s"
  let ?l = "take 5 s" and ?d = "takeWhile is_digit (drop 5 s)"
  let ?e = "dropWhile is_digit (drop 5 s)"
  from m have parts: "5 \<le> length s \<and> map lower_char ?l = ''ident'' \<and>
      (2 \<le> length ?d \<and> length ?d \<le> 4 \<and> (?e = [] \<or> ?e = [CHR 0x0A]))"
    unfolding ident_re_match_def Let_def .
  have split: "s = ?l @ ?d @ ?e"
    by (simp only: takeWhile_dropWhile_id append_take_drop_id)
  have digits: "\<forall>d \<in> set ?d. is_digit d"
    using set_takeWhileD by fastforce
  show "\<exists>letters digits end.
        s = letters @ digits @ end \<and> map lower_char letters = ''ident'' \<and>
        (\<forall>d \<in> set digits. is_digit d) \<and> 2 \<le> length digits \<and> length digits \<le> 4 \<and>
        (end = [] \<or> end = [CHR 0x0A])"
    apply (rule exI [of _ ?l], rule exI [of _ ?d], rule exI [of _ ?e])
    using parts split digits by (intro conjI) (elim conjE, assumption)+
next
  assume "\<exists>letters digits end.
        s = letters @ digits @ end \<and> map lower_char letters = ''ident'' \<and>
        (\<forall>d \<in> set digits. is_digit d) \<and> 2 \<le> length digits \<and> length digits \<le> 4 \<and>
        (end = [] \<or> end = [CHR 0x0A])"
  then obtain l d e where s: "s = l @ d @ e" and l: "map lower_char l = ''ident''"
    and d: "\<forall>c \<in> set d. is_digit c" and d2: "2 \<le> length d" and d4: "length d \<le> 4"
    and e: "e = [] \<or> e = [CHR 0x0A]"
    by (elim exE conjE) (rule that, assumption+)
  from l have "length (map lower_char l) = length ''ident''" by (rule arg_cong)
  then have len: "length l = 5" by simp
  have tk: "take 5 s = l" and dr: "drop 5 s = d @ e"
    unfolding s using len by simp_all
  have tw: "takeWhile is_digit (d @ e) = d"
    using e
  proof
    assume "e = []"
    with d show ?thesis by (simp add: takeWhile_eq_all_conv)
  next
    assume "e = [CHR 0x0A]"
    with d newline_not_digit show ?thesis by (simp add: takeWhile_append2)
  qed
  have dw: "dropWhile is_digit (d @ e) = e"
    using e
  proof
    assume "e = []"
    with d show ?thesis by simp
  next
    assume "e = [CHR 0x0A]"
    with d newline_not_digit show ?thesis by (simp add: dropWhile_append2)
  qed
  have long: "5 \<le> length s" unfolding s using len by simp
  show "ident_re_match s"
    unfolding ident_re_match_def Let_def tk dr tw dw
    by (intro conjI long l d2 d4 e)
qed

section \<open>The loop of find_tables\<close>

lemma get_columns_opened:
  assumes "HDFStore (hdf5_file_path s) = Inr store"
  shows "get_columns HDFStore s (Some table) =
           (case store table of None \<Rightarrow> Inl AssertionError | Some df \<Rightarrow> Inr (columns df))"
  using assms by (simp add: get_columns_def)

lemma find_tables_loop_succeeds:
  assumes "HDFStore (hdf5_file_path s) = Inr store"
      and "\<forall>t \<in> set ts. index t \<noteq> None \<or> store t \<noteq> None"
  shows "\<exists>new. find_tables_loop HDFStore s v ts index built acc =
           (Inr (acc @ filter (\<lambda>t. v \<in> set (the (extended store index ts t))) ts),
            extended store index ts, built @ new) \<and>
           distinct new \<and> set new = {t \<in> set ts. index t = None}"
  using assms(2)
proof (induction ts arbitrary: index built acc)
  case Nil
  then show ?case by (simp add: extended_def)
next
  case (Cons t ts)
  show ?case
  proof (cases "index t")
    case (Some cols)
    have same: "extended store index (t # ts) = extended store index ts"
      using Some by (auto simp: extended_def fun_eq_iff)
    have pre: "\<forall>t \<in> set ts. index t \<noteq> None \<or> store t \<noteq> None"
      using Cons.prems by simp
    have cur: "the (extended store index ts t) = cols"
      using Some by (simp add: extended_def)
    let ?acc = "if v \<in> set cols then acc @ [t] else acc"
    from Cons.IH [OF pre, of built ?acc]
    obtain new where
      loop: "find_tables_loop HDFStore s v ts index built ?acc =
           (Inr (?acc @ filter (\<lambda>t. v \<in> set (the (extended store index ts t))) ts),
            extended store index ts, built @ new)"
      and new: "distinct new" "set new = {t \<in> set ts. index t = None}"
      by (elim exE conjE) (rule that, assumption+)
    have A: "find_tables_loop HDFStore s v (t # ts) index built acc =
            (Inr (acc @ filter (\<lambda>u. v \<in> set (the (extended store index ts u))) (t # ts)),
             extended store index ts, built @ new)"
      using Some loop cur by simp
    have B: "set new = {u \<in> set (t # ts). index u = None}"
      using Some by (auto simp: new(2))
    show ?thesis unfolding same by (rule exI [of _ new]) (intro conjI A B new(1))
  next
    case None
    with Cons.prems obtain df where df: "store t = Some df" by auto
    let ?index = "index(t \<mapsto> columns df)"
    have same: "extended store index (t # ts) = extended store ?index ts"
      using None df by (auto simp: extended_def fun_eq_iff)
    have pre: "\<forall>u \<in> set ts. ?index u \<noteq> None \<or> store u \<noteq> None"
      using Cons.prems by simp
    have cur: "the (extended store ?index ts t) = columns df"
      by (simp add: extended_def)
    let ?acc = "if v \<in> set (columns df) then acc @ [t] else acc"
    from Cons.IH [OF pre, of "built @ [t]" ?acc]
    obtain new where
      loop: "find_tables_loop HDFStore s v ts ?index (built @ [t]) ?acc =
           (Inr (?acc @ filter (\<lambda>t. v \<in> set (the (extended store ?index ts t))) ts),
            extended store ?index ts, (built @ [t]) @ new)"
      and new: "distinct new" "set new = {u \<in> set ts. ?index u = None}"
      by (elim exE conjE) (rule that, assumption+)
    have A: "find_tables_loop HDFStore s v (t # ts) index built acc =
            (Inr (acc @ filter (\<lambda>u. v \<in> set (the (extended store ?index ts u))) (t # ts)),
             extended store ?index ts, built @ (t # new))"
      using None df loop cur assms(1) by (simp add: get_columns_opened)
    have B: "set (t # new) = {u \<in> set (t # ts). index u = None}"
      using None by (auto simp: new(2))
    have C: "distinct (t # new)"
      using new(1) by (simp add: new(2))
    show ?thesis unfolding same by (rule exI [of _ "t # new"]) (intro conjI A B C)
  qed
qed


lemma find_tables_loop_fails:
  assumes "HDFStore (hdf5_file_path s) = Inr store"
      and "\<exists>t \<in> set ts. index t = None \<and> store t = None"
  shows "fst (find_tables_loop HDFStore s v ts index built acc) = Inl AssertionError"
  using assms(2)
proof (induction ts arbitrary: index built acc)
  case Nil
  then show ?case by simp
next
  case (Cons t ts)
  show ?case
  proof (cases "index t")
    case (Some cols)
    with Cons.prems have "\<exists>u \<in> set ts. index u = None \<and> store u = None" by auto
    from Cons.IH [OF this] Some show ?thesis by simp
  next
    case None
    show ?thesis
    proof (cases "store t")
      case None': None
      with None assms(1) show ?thesis by (simp add: get_columns_opened)
    next
      case (Some df)
      from Cons.prems obtain u where u: "u \<in> set (t # ts)" "index u = None" "store u = None"
        by blast
      with Some have "u \<noteq> t" by auto
      with u have "\<exists>u \<in> set ts. (index(t \<mapsto> columns df)) u = None \<and> store u = None"
        by auto
      then have ih: "fst (find_tables_loop HDFStore s v ts (index(t \<mapsto> columns df)) b a) =
                       Inl AssertionError" for b a
        by (rule Cons.IH)
      show ?thesis
        using None Some assms(1) by (simp add: get_columns_opened ih)
    qed
  qed
qed

lemma extended_cached:
  assumes "\<forall>t \<in> set ts. index t \<noteq> None \<or> store t \<noteq> None"
  shows "\<forall>t \<in> set ts. extended store index ts t \<noteq> None"
  using assms by (auto simp: extended_def)

lemma extended_idem:
  "extended store (extended store index ts) ts = extended store index ts"
  by (auto simp: extended_def fun_eq_iff)

lemma erfs_store_simps:
  "erfs_store ''T'' = Some [(''a'', [5, 6]), (''c'', [7, 8])]"
  "erfs_store ''men'' = Some [(''IDENT08'', [1, 2]), (''Salaire'', [1500, 2100])]"
  "erfs_store ''menage'' = None"
  by (simp_all add: erfs_store_def)

lemma get_columns_erfs:
  "get_columns erfs_files erfs (Some ''T'') = Inr [''a'', ''c'']"
  "get_columns erfs_files erfs (Some ''men'') = Inr [''IDENT08'', ''Salaire'']"
  "get_columns erfs_files erfs (Some ''menage'') = Inl AssertionError"
  by (simp_all add: get_columns_def erfs_files_def erfs_def erfs_store_simps columns_def)

lemma get_columns_two_stores:
  "get_columns two_stores catalog_a (Some ''T'') = Inr [''x'']"
  "get_columns two_stores catalog_b (Some ''T'') = Inr [''y'']"
  by (simp_all add: get_columns_def two_stores_def catalog_a_def catalog_b_def columns_def)

section \<open>The registry of a catalog built by the constructor and insert_table\<close>

text \<open>
  The constructor gives a catalog a name and an empty dictionary as table registry, and
  \<open>insert_table\<close> keeps the registry a dictionary whose entries are dictionaries and keeps
  the name and \<open>informations\<close>. The theorems below that assume such a registry therefore
  apply to every catalog built by these two operations.
\<close>

lemma values_update:
  "snd ` set (AList.update k v al) \<subseteq> insert v (snd ` set al)"
  by (induction al) auto

lemma table_setitem_entries:
  assumes "\<forall>v \<in> snd ` set t. \<exists>a. v = PDict a" and "table_setitem t nm key val = Inr t'"
  shows "\<forall>v \<in> snd ` set t'. \<exists>a. v = PDict a"
proof -
  from assms(2) obtain a where "t' = AList.update nm (PDict (AList.update key val a)) t"
    by (auto simp: table_setitem_def split: option.splits pyval.splits)
  with assms(1) values_update [of nm "PDict (AList.update key val a)" t] show ?thesis
    by blast
qed

lemma insert_loop_entries:
  assumes "\<forall>v \<in> snd ` set t. \<exists>a. v = PDict a" and "insert_loop t nm kwargs = Inr t'"
  shows "\<forall>v \<in> snd ` set t'. \<exists>a. v = PDict a"
  using assms
proof (induction kwargs arbitrary: t)
  case Nil
  then show ?case by simp
next
  case (Cons kv kwargs)
  obtain key val where kv: "kv = (key, val)" by (cases kv)
  from Cons.prems(2) kv obtain t1 where step: "table_setitem t nm key val = Inr t1"
    and rest: "insert_loop t1 nm kwargs = Inr t'"
    by (auto split: sum.splits)
  from table_setitem_entries [OF Cons.prems(1) step] rest show ?case
    by (rule Cons.IH)
qed

lemma Survey_init_registry:
  assumes "Survey_init nm lbl path kwargs = Inr s"
  shows "name s \<noteq> PNone \<and> tables s = PDict []"
  using assms by (auto simp: Survey_init_def split: if_splits)

lemma insert_table_registry:
  assumes "tables s = PDict t" and "\<forall>v \<in> snd ` set t. \<exists>a. v = PDict a"
      and "insert_table s nm kwargs = Inr s'"
  shows "\<exists>t'. tables s' = PDict t' \<and> (\<forall>v \<in> snd ` set t'. \<exists>a. v = PDict a) \<and>
              name s' = name s \<and> informations s' = informations s"
proof -
  let ?t1 = "if nm \<notin> set (map fst t) then AList.update nm (PDict []) t else t"
  have t1: "\<forall>v \<in> snd ` set ?t1. \<exists>a. v = PDict a"
  proof (cases "nm \<notin> set (map fst t)")
    case True
    have "\<exists>a. v = PDict a" if "v \<in> snd ` set (AList.update nm (PDict []) t)" for v
    proof -
      from that values_update [of nm "PDict []" t]
      have "v = PDict [] \<or> v \<in> snd ` set t" by (meson insertE subsetD)
      with assms(2) show ?thesis by (elim disjE) (rule exI, assumption, rule bspec)
    qed
    with True show ?thesis by simp
  next
    case False
    with assms(2) show ?thesis by simp
  qed
  from assms(1,3) obtain t2 where loop: "insert_loop ?t1 nm kwargs = Inr t2"
    and s': "s' = s\<lparr>tables := PDict t2\<rparr>"
    by (auto simp: insert_table_def Let_def split: sum.splits)
  from insert_loop_entries [OF t1 loop] s' show ?thesis by simp
qed

section \<open>Construction\<close>

text \<open>
  C2 (as amended). Construction fails with \<open>AssertionError\<close> exactly when the name is
  absent (\<open>None\<close>). For every name that is present, the empty string included, it succeeds
  and yields a catalog with that name and an empty table registry of its own.
\<close>

theorem C2_construct_fails_iff_name_absent:
  "Survey_init PNone lbl path kwargs = Inl AssertionError \<and>
   (nm \<noteq> PNone \<longrightarrow>
      (\<exists>s. Survey_init nm lbl path kwargs = Inr s \<and> name s = nm \<and> tables s = PDict []
            \<and> label s = lbl \<and> hdf5_file_path s = path \<and> informations s = kwargs))"
  by (simp add: Survey_init_def class_default_def)

theorem C2_construct_fails_iff_name_absent_witness:
  "PStr ''erfs'' \<noteq> PNone \<and>
   (\<exists>s. Survey_init (PStr ''erfs'') PNone PNone [] = Inr s \<and> name s = PStr ''erfs''
        \<and> tables s = PDict [])"
  using C2_construct_fails_iff_name_absent [of PNone PNone "[]" "PStr ''erfs''"] by auto

text \<open>
  C2 as stated fails: construction with the empty string as name succeeds.
\<close>

theorem C2_empty_name_accepted:
  "Survey_init (PStr '''') PNone PNone [] =
     Inr \<lparr> hdf5_file_path = PNone, label = PNone, name = PStr '''', tables = PDict [],
           informations = [] \<rparr>"
  by (simp add: Survey_init_def class_default_def)

section \<open>Documents\<close>

text \<open>
  C10. A document without the key \<open>informations\<close> is refused: \<open>survey_json.get\<close> yields
  \<open>None\<close>, which cannot be spread into keyword arguments. A document without the key
  \<open>tables\<close> yields, whenever the construction succeeds, a catalog whose table registry is
  \<open>None\<close> and not an empty dictionary; and the construction does succeed when the name is
  present and \<open>informations\<close> is a dictionary without a key that is a parameter of
  \<open>__init__\<close>.
\<close>

theorem C10_missing_keys:
  "(map_of doc ''informations'' = None \<longrightarrow> create_from_json doc = Inl TypeError) \<and>
   (map_of doc ''tables'' = None \<longrightarrow>
      (\<forall>s. create_from_json doc = Inr s \<longrightarrow> tables s = PNone)) \<and>
   (map_of doc ''tables'' = None \<and> map_of doc ''informations'' = Some (PDict kw) \<and>
    set (map fst kw) \<inter> set init_parameters = {} \<and> dict_get doc ''name'' \<noteq> PNone \<longrightarrow>
      (\<exists>s. create_from_json doc = Inr s \<and> tables s = PNone \<and> informations s = kw))"
  by (auto simp: create_from_json_def dict_get_def Survey_init_def
           split: pyval.splits sum.splits if_splits option.splits)

theorem C10_missing_keys_witness:
  "create_from_json [(''name'', PStr ''erfs'')] = Inl TypeError \<and>
   (\<exists>s. create_from_json [(''name'', PStr ''erfs''), (''informations'', PDict [])] = Inr s
        \<and> tables s = PNone \<and> informations s = [])"
  using C10_missing_keys [of "[(''name'', PStr ''erfs'')]" "[]"]
        C10_missing_keys [of "[(''name'', PStr ''erfs''), (''informations'', PDict [])]" "[]"]
  by (simp add: dict_get_def)


text \<open>
  C3 (as amended). For every catalog that has a name, whose table registry is a dictionary
  and whose \<open>informations\<close> has no key that is a parameter name of \<open>__init__\<close>, \<open>to_json\<close>
  succeeds and \<open>create_from_json\<close> rebuilds from its document a catalog with the same name,
  label and store path, and with the same table registry and the same \<open>informations\<close> as
  mappings.
\<close>

theorem C3_round_trip:
  assumes "name s \<noteq> PNone"
      and "tables s = PDict t"
      and "set (map fst (informations s)) \<inter> set init_parameters = {}"
  shows "\<exists>doc s'. to_json s = Inr doc \<and> create_from_json doc = Inr s' \<and>
           name s' = name s \<and> label s' = label s \<and>
           hdf5_file_path s' = hdf5_file_path s \<and>
           (\<exists>t'. tables s' = PDict t' \<and> map_of t' = map_of t) \<and>
           map_of (informations s') = map_of (informations s)"
proof -
  have keys: "set (map fst (sorted_items (informations s))) \<inter> set init_parameters = {}"
    using assms(3) by (simp only: keys_sorted_items)
  show ?thesis
    using assms(1,2) keys
    by (simp add: to_json_def create_from_json_def dict_get_simps Survey_init_def
          class_default_def map_of_sorted_items)
qed

theorem C3_round_trip_witness:
  "\<exists>doc s'. to_json \<lparr> hdf5_file_path = PStr ''erfs.h5'', label = PNone, name = PStr ''erfs'',
                      tables = PDict [(''menage'', PDict [(''Rdata_table'', PStr ''men'')]),
                                      (''foyer'', PDict [])],
                      informations = [(''year'', PInt 2008)] \<rparr> = Inr doc \<and>
       create_from_json doc = Inr s' \<and> name s' = PStr ''erfs'' \<and> label s' = PNone \<and>
       hdf5_file_path s' = PStr ''erfs.h5'' \<and>
       (\<exists>t'. tables s' = PDict t' \<and>
             map_of t' = map_of [(''menage'', PDict [(''Rdata_table'', PStr ''men'')]),
                                 (''foyer'', PDict [])]) \<and>
       map_of (informations s') = map_of [(''year'', PInt 2008)]"
  using C3_round_trip [of "\<lparr> hdf5_file_path = PStr ''erfs.h5'', label = PNone,
                      name = PStr ''erfs'',
                      tables = PDict [(''menage'', PDict [(''Rdata_table'', PStr ''men'')]),
                                      (''foyer'', PDict [])],
                      informations = [(''year'', PInt 2008)] \<rparr>"
                    "[(''menage'', PDict [(''Rdata_table'', PStr ''men'')]),
                                      (''foyer'', PDict [])]"]
  by (simp add: init_parameters_def)

text \<open>
  C3 as stated fails: for a catalog whose free-form \<open>informations\<close> holds the key \<open>label\<close>,
  \<open>to_json\<close> produces a document that \<open>create_from_json\<close> refuses with \<open>TypeError\<close>, because
  the key collides with the keyword argument \<open>label\<close>.
\<close>

theorem C3_reserved_key_breaks_round_trip:
  "to_json \<lparr> hdf5_file_path = PNone, label = PNone, name = PStr ''erfs'', tables = PDict [],
             informations = [(''label'', PStr ''x'')] \<rparr> =
     Inr [(''hdf5_file_path'', PNone), (''label'', PNone), (''name'', PStr ''erfs''),
          (''tables'', PDict []), (''informations'', PDict [(''label'', PStr ''x'')])] \<and>
   create_from_json
     [(''hdf5_file_path'', PNone), (''label'', PNone), (''name'', PStr ''erfs''),
      (''tables'', PDict []), (''informations'', PDict [(''label'', PStr ''x'')])] =
     Inl TypeError"
  by (simp add: to_json_def sorted_items_def create_from_json_def dict_get_simps
        init_parameters_def)





section \<open>Registration\<close>



section \<open>Reading values\<close>

text \<open>
  C9 (as amended). With the store opened, \<open>get_values\<close> works on the table stored under
  the given name when the store has one, whatever the registry is; otherwise, when the
  registry is a dictionary whose entry of that name is a dictionary, on the table stored
  under the \<open>Rdata_table\<close> attribute of the entry. It fails with \<open>KeyError\<close> when the store
  has no table of that name and the registry is a dictionary that has no entry for it, or
  whose entry is a dictionary without \<open>Rdata_table\<close> attribute, or with an attribute under
  which no table is stored. It fails with \<open>TypeError\<close> when the store has no table of that
  name and the registry is not a dictionary, or its entry of that name is not one.
\<close>

theorem C9_table_resolution:
  assumes "HDFStore (hdf5_file_path s) = Inr store"
  shows "(store table = Some df \<longrightarrow>
            get_values HDFStore hash_order s variables table lowercase rename_ident =
              select_variables hash_order variables
                (rename_ident_column rename_ident (lowercase_columns lowercase df))) \<and>
         (store table = None \<and> tables s = PDict t \<and> map_of t table = Some (PDict a) \<and>
          map_of a ''Rdata_table'' = Some (PStr k) \<and> store k = Some df \<longrightarrow>
            get_values HDFStore hash_order s variables table lowercase rename_ident =
              select_variables hash_order variables
                (rename_ident_column rename_ident (lowercase_columns lowercase df))) \<and>
         (store table = None \<and> tables s = PDict t \<and>
          (map_of t table = None \<or>
           (\<exists>a. map_of t table = Some (PDict a) \<and>
                (map_of a ''Rdata_table'' = None \<or>
                 (\<exists>k. map_of a ''Rdata_table'' = Some (PStr k) \<and> store k = None)))) \<longrightarrow>
            get_values HDFStore hash_order s variables table lowercase rename_ident =
              Inl KeyError) \<and>
         (store table = None \<and>
          ((\<forall>t. tables s \<noteq> PDict t) \<or>
           (\<exists>t v. tables s = PDict t \<and> map_of t table = Some v \<and> (\<forall>a. v \<noteq> PDict a))) \<longrightarrow>
            get_values HDFStore hash_order s variables table lowercase rename_ident =
              Inl TypeError)"
proof (intro conjI impI)
  assume "store table = Some df"
  then show "get_values HDFStore hash_order s variables table lowercase rename_ident =
              select_variables hash_order variables
                (rename_ident_column rename_ident (lowercase_columns lowercase df))"
    using assms by (simp add: get_values_def read_table_def store_getitem_def)
next
  assume "store table = None \<and> tables s = PDict t \<and> map_of t table = Some (PDict a) \<and>
          map_of a ''Rdata_table'' = Some (PStr k) \<and> store k = Some df"
  then show "get_values HDFStore hash_order s variables table lowercase rename_ident =
              select_variables hash_order variables
                (rename_ident_column rename_ident (lowercase_columns lowercase df))"
    using assms by (simp add: get_values_def read_table_def store_getitem_def getitem_def)
next
  assume "store table = None \<and> tables s = PDict t \<and>
          (map_of t table = None \<or>
           (\<exists>a. map_of t table = Some (PDict a) \<and>
                (map_of a ''Rdata_table'' = None \<or>
                 (\<exists>k. map_of a ''Rdata_table'' = Some (PStr k) \<and> store k = None))))"
  then show "get_values HDFStore hash_order s variables table lowercase rename_ident =
              Inl KeyError"
    using assms by (auto simp: get_values_def read_table_def store_getitem_def getitem_def)
next
  assume "store table = None \<and>
          ((\<forall>t. tables s \<noteq> PDict t) \<or>
           (\<exists>t v. tables s = PDict t \<and> map_of t table = Some v \<and> (\<forall>a. v \<noteq> PDict a)))"
  then show "get_values HDFStore hash_order s variables table lowercase rename_ident =
              Inl TypeError"
    using assms
    by (auto simp: get_values_def read_table_def store_getitem_def getitem_def
             split: pyval.splits)
qed

theorem C9_table_resolution_witness:
  "get_values erfs_files (\<lambda>xs. xs) erfs None ''men'' False False =
     Inr [(''IDENT08'', [1, 2]), (''Salaire'', [1500, 2100])] \<and>
   get_values erfs_files (\<lambda>xs. xs) erfs None ''menage'' False False =
     Inr [(''IDENT08'', [1, 2]), (''Salaire'', [1500, 2100])] \<and>
   get_values erfs_files (\<lambda>xs. xs) erfs None ''foyer'' False False = Inl KeyError \<and>
   get_values erfs_files (\<lambda>xs. xs) erfs None ''individu'' False False = Inl KeyError \<and>
   get_values erfs_files (\<lambda>xs. xs) erfs_loaded None ''individu'' False False = Inl TypeError"
proof -
  let ?t = "[(''menage'', PDict [(''Rdata_table'', PStr ''men'')]), (''foyer'', PDict [])]"
  let ?men = "[(''IDENT08'', [1, 2]), (''Salaire'', [1500, 2100])] :: int list dataframe"
  have h1: "erfs_files (hdf5_file_path erfs) = Inr erfs_store"
    by (simp add: erfs_files_def erfs_def)
  have h1': "erfs_files (hdf5_file_path erfs_loaded) = Inr erfs_store"
    by (simp add: erfs_files_def erfs_loaded_def)
  have h2: "tables erfs = PDict ?t" by (simp add: erfs_def)
  have h2': "\<forall>t. tables erfs_loaded \<noteq> PDict t" by (simp add: erfs_loaded_def)
  note r = C9_table_resolution [where HDFStore = erfs_files and s = erfs
      and store = erfs_store and t = ?t and hash_order = "\<lambda>xs. xs" and variables = None
      and lowercase = False and rename_ident = False, OF h1]
  note r' = C9_table_resolution [where HDFStore = erfs_files and s = erfs_loaded
      and store = erfs_store and hash_order = "\<lambda>xs. xs" and variables = None
      and lowercase = False and rename_ident = False and table = "''individu''", OF h1']
  have direct: "erfs_store ''men'' = Some ?men" by (simp add: erfs_store_def)
  have absent: "erfs_store ''menage'' = None" "erfs_store ''foyer'' = None"
    "erfs_store ''individu'' = None"
    by (simp_all add: erfs_store_def)
  have sel: "select_variables (\<lambda>xs. xs) None
               (rename_ident_column False (lowercase_columns False ?men)) = Inr ?men"
    by (simp add: select_variables_def rename_ident_column_def lowercase_columns_def)
  have c1: "get_values erfs_files (\<lambda>xs. xs) erfs None ''men'' False False = Inr ?men"
    using r [where table = "''men''" and df = ?men and a = "[]" and k = "[]"] direct sel
    by simp
  have c2: "get_values erfs_files (\<lambda>xs. xs) erfs None ''menage'' False False = Inr ?men"
    using r [where table = "''menage''" and df = ?men
               and a = "[(''Rdata_table'', PStr ''men'')]" and k = "''men''"]
          direct absent sel h2
    by simp
  have c3: "get_values erfs_files (\<lambda>xs. xs) erfs None ''foyer'' False False = Inl KeyError"
    using r [where table = "''foyer''" and df = ?men and a = "[]" and k = "[]"] absent h2
    by simp
  have c4: "get_values erfs_files (\<lambda>xs. xs) erfs None ''individu'' False False = Inl KeyError"
    using r [where table = "''individu''" and df = ?men and a = "[]" and k = "[]"] absent h2
    by simp
  have c5: "get_values erfs_files (\<lambda>xs. xs) erfs_loaded None ''individu'' False False =
              Inl TypeError"
    using r' [where df = ?men and a = "[]" and k = "[]" and t = "[]"] absent h2'
    by simp
  show ?thesis using c1 c2 c3 c4 c5 by simp
qed

text \<open>
  C9 as stated fails: the catalog built by \<open>create_from_json\<close> from a document without the
  key \<open>tables\<close> has the registry \<open>None\<close>; for the name \<open>individu\<close>, which is neither in the
  store nor in the registry, \<open>get_values\<close> raises \<open>TypeError\<close> and not \<open>KeyError\<close>.
\<close>

theorem C9_null_registry_raises_TypeError:
  "create_from_json erfs_document = Inr erfs_loaded \<and>
   get_values erfs_files (\<lambda>xs. xs) erfs_loaded None ''individu'' False False = Inl TypeError"
  by (simp add: create_from_json_def erfs_document_def dict_get_simps init_parameters_def
        Survey_init_def class_default_def erfs_loaded_def get_values_def erfs_files_def
        read_table_def store_getitem_def getitem_def erfs_store_def)

text \<open>
  C5. Let the table be read and renamed, and let \<open>hash_order\<close> enumerate a list of
  distinct names in any order (a permutation). With an explicit list of variables,
  \<open>get_values\<close> fails with the exception that names exactly the requested variables that
  are not columns, when there is one; otherwise it returns, each exactly once and with its
  contents, the columns of the renamed table whose name is requested, however often a name
  is requested; in particular the set of column names of the result is the intersection of
  the requested names and the column names.
\<close>

theorem C5_select_variables:
  assumes "HDFStore (hdf5_file_path s) = Inr store"
      and "read_table store s table = Inr df"
      and "\<forall>xs. mset (hash_order xs) = mset xs"
      and "renamed = rename_ident_column rename_ident (lowercase_columns lowercase df)"
  shows "(set vs - set (columns renamed) \<noteq> {} \<longrightarrow>
            get_values HDFStore hash_order s (Some vs) table lowercase rename_ident =
              Inl (MissingVariables (set vs - set (columns renamed)))) \<and>
         (set vs - set (columns renamed) = {} \<longrightarrow>
            (\<exists>r. get_values HDFStore hash_order s (Some vs) table lowercase rename_ident = Inr r \<and>
                 mset r = mset (filter (\<lambda>c. fst c \<in> set vs) renamed) \<and>
                 set (columns r) = set vs \<inter> set (columns renamed) \<and>
                 set r = {c \<in> set renamed. fst c \<in> set vs}))"
proof -
  let ?req = "remdups (filter (\<lambda>v. v \<in> set (columns renamed)) vs)"
  have gv: "get_values HDFStore hash_order s (Some vs) table lowercase rename_ident =
              select_variables hash_order (Some vs) renamed"
    using assms(1,2,4) by (simp add: get_values_unfold)
  have perm: "mset (hash_order ?req) = mset ?req"
    using assms(3) by simp
  have sel: "set (hash_order ?req) = set vs \<inter> set (columns renamed)"
    using mset_eq_setD [OF perm] by auto
  have dist: "distinct (hash_order ?req)"
    using mset_eq_imp_distinct_iff [OF perm] by simp
  show ?thesis
  proof (cases "set vs - set (columns renamed) = {}")
    case True
    let ?r = "select_columns (hash_order ?req) renamed"
    have res: "select_variables hash_order (Some vs) renamed = Inr ?r"
      using True by (simp add: select_variables_def)
    have same: "filter (\<lambda>c. fst c \<in> set vs \<inter> set (columns renamed)) renamed =
                filter (\<lambda>c. fst c \<in> set vs) renamed"
      by (rule filter_cong) (auto simp: columns_def)
    have m: "mset ?r = mset (filter (\<lambda>c. fst c \<in> set vs) renamed)"
      using mset_select_columns [OF dist, of renamed] by (simp only: sel same)
    have c: "set (columns ?r) = set vs \<inter> set (columns renamed)"
      using sel by (simp add: columns_select_columns)
    have e: "set ?r = {c \<in> set renamed. fst c \<in> set vs}"
      using sel by (auto simp: set_select_columns columns_def)
    have "\<exists>r. get_values HDFStore hash_order s (Some vs) table lowercase rename_ident = Inr r \<and>
                 mset r = mset (filter (\<lambda>c. fst c \<in> set vs) renamed) \<and>
                 set (columns r) = set vs \<inter> set (columns renamed) \<and>
                 set r = {c \<in> set renamed. fst c \<in> set vs}"
      by (rule exI [of _ ?r]) (intro conjI gv [unfolded res] m c e)
    with True show ?thesis by simp
  next
    case False
    then show ?thesis using gv by (simp add: select_variables_def)
  qed
qed

theorem C5_select_variables_witness:
  "get_values erfs_files (\<lambda>xs. xs) erfs (Some [''a'', ''b'']) ''T'' True True =
     Inl (MissingVariables {''b''}) \<and>
   (\<exists>r. get_values erfs_files (\<lambda>xs. xs) erfs (Some [''a'', ''a'']) ''T'' True True = Inr r \<and>
        mset r = {#(''a'', [5, 6])#} \<and> set (columns r) = {''a''})"
proof -
  let ?df = "[(''a'', [5, 6]), (''c'', [7, 8])] :: int list dataframe"
  have h1: "erfs_files (hdf5_file_path erfs) = Inr erfs_store"
    by (simp add: erfs_files_def erfs_def)
  have h2: "read_table erfs_store erfs ''T'' = Inr ?df" by (rule read_table_erfs)
  have h3: "\<forall>xs::string list. mset ((\<lambda>xs. xs) xs) = mset xs" by simp
  have h4: "?df = rename_ident_column True (lowercase_columns True ?df)"
    by (simp add: rename_ident_column_def lowercase_columns_def rename_def columns_def
          lower_examples ident_re_match_examples)
  note r = C5_select_variables [where HDFStore = erfs_files and s = erfs
      and store = erfs_store and table = "''T''" and df = ?df and hash_order = "\<lambda>xs. xs"
      and renamed = ?df and lowercase = True and rename_ident = True, OF h1 h2 h3 h4]
  have d1: "set [''a'', ''b''] - set (columns ?df) = {''b''}"
    by (auto simp: columns_def)
  have d2: "set [''a'', ''a''] - set (columns ?df) = {}"
    by (auto simp: columns_def)
  have i2: "set [''a'', ''a''] \<inter> set (columns ?df) = {''a''}"
    by (auto simp: columns_def)
  have p2: "mset (filter (\<lambda>c. fst c \<in> set [''a'', ''a'']) ?df) = {#(''a'', [5, 6])#}"
    by simp
  have n1: "set [''a'', ''b''] - set (columns ?df) \<noteq> {}"
    using d1 by simp
  have c1: "get_values erfs_files (\<lambda>xs. xs) erfs (Some [''a'', ''b'']) ''T'' True True =
              Inl (MissingVariables {''b''})"
    using r [where vs = "[''a'', ''b'']", THEN conjunct1, THEN mp, OF n1]
    by (simp only: d1)
  from r [where vs = "[''a'', ''a'']", THEN conjunct2, THEN mp, OF d2]
  obtain r' where
    g: "get_values erfs_files (\<lambda>xs. xs) erfs (Some [''a'', ''a'']) ''T'' True True = Inr r'"
    and m: "mset r' = mset (filter (\<lambda>c. fst c \<in> set [''a'', ''a'']) ?df)"
    and c: "set (columns r') = set [''a'', ''a''] \<inter> set (columns ?df)"
    by (elim exE conjE) (rule that, assumption+)
  have c2: "\<exists>r. get_values erfs_files (\<lambda>xs. xs) erfs (Some [''a'', ''a'']) ''T'' True True = Inr r \<and>
        mset r = {#(''a'', [5, 6])#} \<and> set (columns r) = {''a''}"
    by (rule exI [of _ r']) (intro conjI g m [unfolded p2] c [unfolded i2])
  show ?thesis using c1 c2 by (rule conjI)
qed

text \<open>
  C4 (as amended). With the default flags and no list of variables, \<open>get_values\<close> returns
  the table read with unchanged column contents; every column name is lowercased; the
  lowercased names are scanned for the first one that \<open>ident_re\<close> matches, and every column
  that bears this name is renamed to \<open>ident\<close>. When the lowercased names are pairwise
  distinct this is the first matching column alone: the columns before it and all the
  columns after it, matching or not, keep their lowercased names.
\<close>

theorem C4_get_values_defaults:
  assumes "HDFStore (hdf5_file_path s) = Inr store"
      and "read_table store s table = Inr df"
      and "lowered = map lower (columns df)"
  shows "\<exists>r. get_values HDFStore hash_order s None table True True = Inr r \<and>
           map snd r = map snd df \<and>
           columns r =
             (case find ident_re_match lowered of
                None \<Rightarrow> lowered
              | Some column_name \<Rightarrow> map (\<lambda>c. if c = column_name then ''ident'' else c) lowered) \<and>
           (distinct lowered \<longrightarrow>
              columns r =
                takeWhile (\<lambda>c. \<not> ident_re_match c) lowered @
                  (case dropWhile (\<lambda>c. \<not> ident_re_match c) lowered of
                     [] \<Rightarrow> []
                   | c # rest \<Rightarrow> ''ident'' # rest))"
proof -
  let ?r = "rename_ident_column True (lowercase_columns True df)"
  have gv: "get_values HDFStore hash_order s None table True True = Inr ?r"
    using assms(1,2) by (simp add: get_values_unfold select_variables_def)
  have low: "columns (lowercase_columns True df) = lowered"
    using assms(3) by (simp add: lowercase_columns_def columns_rename)
  have cols: "columns ?r =
             (case find ident_re_match lowered of
                None \<Rightarrow> lowered
              | Some column_name \<Rightarrow> map (\<lambda>c. if c = column_name then ''ident'' else c) lowered)"
    using low by (simp add: rename_ident_column_def columns_rename split: option.split)
  have data: "map snd ?r = map snd df"
    by (simp add: rename_ident_column_def lowercase_columns_def contents_rename
          split: option.split)
  have "columns ?r =
                takeWhile (\<lambda>c. \<not> ident_re_match c) lowered @
                  (case dropWhile (\<lambda>c. \<not> ident_re_match c) lowered of
                     [] \<Rightarrow> []
                   | c # rest \<Rightarrow> ''ident'' # rest)"
    if "distinct lowered"
    using cols rename_first_match_distinct [OF that, where P = ident_re_match and i = "''ident''"]
    by simp
  with gv cols data show ?thesis by blast
qed

theorem C4_get_values_defaults_witness:
  "\<exists>r. get_values erfs_files (\<lambda>xs. xs) erfs None ''menage'' True True = Inr r \<and>
       map snd r = [[1, 2], [1500, 2100]] \<and> columns r = [''ident'', ''salaire'']"
proof -
  let ?df = "[(''IDENT08'', [1, 2]), (''Salaire'', [1500, 2100])] :: int list dataframe"
  have h1: "erfs_files (hdf5_file_path erfs) = Inr erfs_store"
    by (simp add: erfs_files_def erfs_def)
  have h2: "read_table erfs_store erfs ''menage'' = Inr ?df" by (rule read_table_erfs)
  have h3: "[''ident08'', ''salaire''] = map lower (columns ?df)"
    by (simp add: columns_def lower_examples)
  have d: "distinct [''ident08'', ''salaire'']" by simp
  show ?thesis
    using C4_get_values_defaults [where HDFStore = erfs_files and s = erfs
      and store = erfs_store and table = "''menage''" and df = ?df
      and hash_order = "\<lambda>xs. xs" and lowered = "[''ident08'', ''salaire'']", OF h1 h2 h3] d
    by (simp add: ident_re_match_examples)
qed

text \<open>
  C4 as stated fails: in the table \<open>ind\<close> the columns \<open>IDENT08\<close> and \<open>ident08\<close> have the same
  lowercased name, and both are renamed to \<open>ident\<close>, not only the first.
\<close>

theorem C4_same_name_columns_both_renamed:
  "get_values erfs_files (\<lambda>xs. xs) erfs None ''ind'' True True =
     Inr [(''ident'', [1, 2]), (''ident'', [3, 4])]"
  by (simp add: get_values_def erfs_files_def erfs_def read_table_erfs [unfolded erfs_def]
        select_variables_def rename_ident_column_def lowercase_columns_def rename_def
        columns_def lower_examples ident_re_match_examples)

section \<open>Table discovery\<close>

text \<open>
  C6 (as amended). Let the store be opened. \<open>find_tables\<close> fails with \<open>AssertionError\<close>
  when the variable is absent. Otherwise, for every list of table names each of which has
  an entry in the index or a table in the store, it returns the names, in the order of the
  list, of the tables whose column list in the index (the entry found there, or else the
  column names just read from the store and entered) contains the variable; it builds a
  column list once for each listed table that had no entry and for no other; and a second
  call with the same arguments on the index left by the first returns the same result and
  the same index and builds no column list. When some listed table has neither an entry
  in the index nor a table in the store, the call fails with \<open>AssertionError\<close>.
\<close>

theorem C6_find_tables:
  assumes "HDFStore (hdf5_file_path s) = Inr store"
  shows "find_tables HDFStore index s None tbls = (Inl AssertionError, index, []) \<and>
         ((\<forall>t \<in> set ts. index t \<noteq> None \<or> store t \<noteq> None) \<longrightarrow>
            (\<exists>r index' built.
               find_tables HDFStore index s (Some v) (Some ts) = (Inr r, index', built) \<and>
               (\<forall>t. index' t = (if t \<in> set ts \<and> index t = None
                                 then map_option columns (store t) else index t)) \<and>
               r = filter (\<lambda>t. v \<in> set (the (index' t))) ts \<and>
               distinct built \<and> set built = {t \<in> set ts. index t = None} \<and>
               find_tables HDFStore index' s (Some v) (Some ts) = (Inr r, index', []))) \<and>
         ((\<exists>t \<in> set ts. index t = None \<and> store t = None) \<longrightarrow>
            fst (find_tables HDFStore index s (Some v) (Some ts)) = Inl AssertionError)"
proof (intro conjI impI)
  show "find_tables HDFStore index s None tbls = (Inl AssertionError, index, [])"
    by (simp add: find_tables_def)
next
  assume ok: "\<forall>t \<in> set ts. index t \<noteq> None \<or> store t \<noteq> None"
  let ?index = "extended store index ts"
  let ?r = "filter (\<lambda>t. v \<in> set (the (?index t))) ts"
  from find_tables_loop_succeeds [where HDFStore = HDFStore and s = s and store = store
         and v = v and built = "[]" and acc = "[]", OF assms ok]
  obtain built where first: "find_tables_loop HDFStore s v ts index [] [] = (Inr ?r, ?index, built)"
    and built: "distinct built" "set built = {t \<in> set ts. index t = None}"
    by (elim exE conjE) (rule that, simp_all)
  have ok': "\<forall>t \<in> set ts. ?index t \<noteq> None \<or> store t \<noteq> None"
    using extended_cached [OF ok] by blast
  from find_tables_loop_succeeds [where HDFStore = HDFStore and s = s and store = store
         and v = v and built = "[]" and acc = "[]", OF assms ok']
  obtain again where second: "find_tables_loop HDFStore s v ts ?index [] [] =
      (Inr (filter (\<lambda>t. v \<in> set (the (extended store ?index ts t))) ts),
       extended store ?index ts, again)"
    and again: "set again = {t \<in> set ts. ?index t = None}"
    by (elim exE conjE) (rule that, simp_all)
  have "set again = {}"
    using extended_cached [OF ok] by (auto simp: again)
  then have "again = []" by simp
  with second have second': "find_tables_loop HDFStore s v ts ?index [] [] = (Inr ?r, ?index, [])"
    by (simp add: extended_idem)
  have A: "find_tables HDFStore index s (Some v) (Some ts) = (Inr ?r, ?index, built)"
    using first by (simp add: find_tables_def Survey_tables_index_def)
  have B: "\<forall>t. ?index t = (if t \<in> set ts \<and> index t = None
                                 then map_option columns (store t) else index t)"
    by (simp add: extended_def)
  have C: "find_tables HDFStore ?index s (Some v) (Some ts) = (Inr ?r, ?index, [])"
    using second' by (simp add: find_tables_def Survey_tables_index_def)
  show "\<exists>r index' built.
               find_tables HDFStore index s (Some v) (Some ts) = (Inr r, index', built) \<and>
               (\<forall>t. index' t = (if t \<in> set ts \<and> index t = None
                                 then map_option columns (store t) else index t)) \<and>
               r = filter (\<lambda>t. v \<in> set (the (index' t))) ts \<and>
               distinct built \<and> set built = {t \<in> set ts. index t = None} \<and>
               find_tables HDFStore index' s (Some v) (Some ts) = (Inr r, index', [])"
    by (rule exI [of _ ?r], rule exI [of _ ?index], rule exI [of _ built])
       (intro conjI A B C built refl)
next
  assume "\<exists>t \<in> set ts. index t = None \<and> store t = None"
  from find_tables_loop_fails [where HDFStore = HDFStore and s = s and store = store
         and v = v and built = "[]" and acc = "[]", OF assms this]
  show "fst (find_tables HDFStore index s (Some v) (Some ts)) = Inl AssertionError"
    by (simp add: find_tables_def Survey_tables_index_def)
qed

theorem C6_find_tables_witness:
  "find_tables erfs_files Map.empty erfs None (Some [''T'', ''men'']) =
     (Inl AssertionError, Map.empty, []) \<and>
   (\<exists>index'. find_tables erfs_files Map.empty erfs (Some ''Salaire'') (Some [''T'', ''men'']) =
       (Inr [''men''], index', [''T'', ''men'']) \<and>
     find_tables erfs_files index' erfs (Some ''Salaire'') (Some [''T'', ''men'']) =
       (Inr [''men''], index', [])) \<and>
   fst (find_tables erfs_files Map.empty erfs (Some ''Salaire'') (Some [''T'', ''menage''])) =
     Inl AssertionError"
proof -
  have h: "erfs_files (hdf5_file_path erfs) = Inr erfs_store"
    by (simp add: erfs_files_def erfs_def)
  note r = C6_find_tables [where HDFStore = erfs_files and s = erfs and store = erfs_store
      and index = Map.empty and v = "''Salaire''", OF h]
  have ok: "\<forall>t \<in> set [''T'', ''men'']. Map.empty t \<noteq> None \<or> erfs_store t \<noteq> None"
    by (simp add: erfs_store_simps)
  have bad: "\<exists>t \<in> set [''T'', ''menage'']. Map.empty t = None \<and> erfs_store t = None"
    by (simp add: erfs_store_simps)
  have c1: "find_tables erfs_files Map.empty erfs None (Some [''T'', ''men'']) =
     (Inl AssertionError, Map.empty, [])"
    using r [where tbls = "Some [''T'', ''men'']" and ts = "[]"] by simp
  from r [where ts = "[''T'', ''men'']" and tbls = None, THEN conjunct2, THEN conjunct1,
          THEN mp, OF ok]
  obtain res index' built where
    first: "find_tables erfs_files Map.empty erfs (Some ''Salaire'') (Some [''T'', ''men'']) =
       (Inr res, index', built)"
    and second: "find_tables erfs_files index' erfs (Some ''Salaire'') (Some [''T'', ''men'']) =
       (Inr res, index', [])"
    by (elim exE conjE) (rule that, assumption+)
  have direct: "find_tables erfs_files Map.empty erfs (Some ''Salaire'') (Some [''T'', ''men'']) =
       (Inr [''men''], [''T'' \<mapsto> [''a'', ''c''], ''men'' \<mapsto> [''IDENT08'', ''Salaire'']],
        [''T'', ''men''])"
    by (simp add: find_tables_def Survey_tables_index_def get_columns_erfs)
  have "res = [''men'']" "built = [''T'', ''men'']"
    using first [unfolded direct] by auto
  with first second have c2: "\<exists>index'.
     find_tables erfs_files Map.empty erfs (Some ''Salaire'') (Some [''T'', ''men'']) =
       (Inr [''men''], index', [''T'', ''men'']) \<and>
     find_tables erfs_files index' erfs (Some ''Salaire'') (Some [''T'', ''men'']) =
       (Inr [''men''], index', [])"
    by blast
  have c3: "fst (find_tables erfs_files Map.empty erfs (Some ''Salaire'')
                   (Some [''T'', ''menage''])) = Inl AssertionError"
    using r [where ts = "[''T'', ''menage'']" and tbls = None, THEN conjunct2, THEN conjunct2,
          THEN mp, OF bad] .
  show ?thesis using c1 c2 c3 by blast
qed

text \<open>
  C6 as stated fails: \<open>menage\<close> is a table name, registered in the catalog under the
  physical key \<open>men\<close>, but the store has no table of that name, and \<open>find_tables\<close> raises
  \<open>AssertionError\<close> instead of returning the tables that contain the variable.
\<close>

theorem C6_registered_table_not_in_store:
  "find_tables erfs_files Map.empty erfs (Some ''Salaire'') (Some [''T'', ''menage'']) =
     (Inl AssertionError, [''T'' \<mapsto> [''a'', ''c'']], [''T''])"
  by (simp add: find_tables_def Survey_tables_index_def get_columns_erfs)

text \<open>
  C1. The claim asks that a call of \<open>find_tables\<close> on one catalog never changes the index
  seen through another. The code does not meet it: the two freshly constructed catalogs
  \<open>catalog_a\<close> and \<open>catalog_b\<close> read the same class-level dictionary. After
  \<open>catalog_a.find_tables("x", ["T"])\<close> the index seen through \<open>catalog_b\<close> holds the columns
  of the table \<open>T\<close> of \<open>a.h5\<close>, and \<open>catalog_b.find_tables("y", ["T"])\<close> returns no table
  although the table \<open>T\<close> of \<open>b.h5\<close> has the column \<open>y\<close>; started on an empty index the
  same call returns \<open>T\<close>.
\<close>

theorem C1_tables_index_is_shared:
  "Survey_init (PStr ''a'') PNone (PStr ''a.h5'') [] = Inr catalog_a \<and>
   Survey_init (PStr ''b'') PNone (PStr ''b.h5'') [] = Inr catalog_b \<and>
   find_tables two_stores Map.empty catalog_a (Some ''x'') (Some [''T'']) =
     (Inr [''T''], [''T'' \<mapsto> [''x'']], [''T'']) \<and>
   Survey_tables_index [''T'' \<mapsto> [''x'']] catalog_b ''T'' = Some [''x''] \<and>
   Survey_tables_index [''T'' \<mapsto> [''x'']] catalog_b \<noteq> Survey_tables_index Map.empty catalog_b \<and>
   find_tables two_stores [''T'' \<mapsto> [''x'']] catalog_b (Some ''y'') (Some [''T'']) =
     (Inr [], [''T'' \<mapsto> [''x'']], []) \<and>
   find_tables two_stores Map.empty catalog_b (Some ''y'') (Some [''T'']) =
     (Inr [''T''], [''T'' \<mapsto> [''y'']], [''T''])"
proof -
  have "Survey_tables_index [''T'' \<mapsto> [''x'']] catalog_b ''T'' \<noteq>
        Survey_tables_index Map.empty catalog_b ''T''"
    by (simp add: Survey_tables_index_def)
  then have "Survey_tables_index [''T'' \<mapsto> [''x'']] catalog_b \<noteq>
             Survey_tables_index Map.empty catalog_b"
    by metis
  then show ?thesis
    by (simp add: Survey_init_def class_default_def catalog_a_def [symmetric]
          catalog_b_def [symmetric] find_tables_def Survey_tables_index_def
          get_columns_two_stores)
qed

end
